theory Spec2Isabelle
  imports Main "HOL-Library.Word"
begin

section \<open>Data model of the output-management client\<close>

text \<open>
  The client (\<^verbatim>\<open>output_management_client.c\<close>) keeps one \<^verbatim>\<open>head_info\<close> per output head and,
  for each head, one \<^verbatim>\<open>mode_info\<close> per mode. Protocol objects (the \<^verbatim>\<open>obj\<close> pointers) are
  opaque: they are modelled by natural numbers and only ever compared for equality.
  The C fields \<^verbatim>\<open>int32_t\<close> are 32-bit words read as two's complement.

  A \<^verbatim>\<open>wl_list\<close> that is used where it was initialised (the heads of the client, the
  modes of a head) is a list whose enumeration order (\<^verbatim>\<open>wl_list_for_each\<close>) is the order
  of the HOL list; \<^verbatim>\<open>wl_list_insert(&list, &elm->link)\<close> puts the element in front. The list
  of restore entries, which \<^verbatim>\<open>load_state\<close> returns by value, is not of that kind and has a
  type of its own below.
\<close>

type_synonym int32_t = "32 word"
type_synonym int64_t = "64 word"
type_synonym uint32_t = "32 word"

record mode_info =
  obj :: nat
  width :: int32_t
  height :: int32_t
  refresh :: int32_t
  preferred :: bool

text \<open>
  \<^verbatim>\<open>current\<close> is a pointer to one of the nodes of \<^verbatim>\<open>modes\<close>, or NULL. Nodes are only ever
  inserted in front of the list and never unlinked, so a node is identified by the number
  of nodes behind it, which never changes: \<open>Some k\<close> designates the node of \<open>modes\<close> that
  has exactly \<open>k\<close> nodes after it.
\<close>

record head_info =
  obj :: nat
  name :: "string option"
  enabled :: bool
  current :: "nat option"
  modes :: "mode_info list"

fun node_at :: "'a list \<Rightarrow> nat \<Rightarrow> 'a option" where
  "node_at [] k = None"
| "node_at (e # rest) k = (if length rest = k then Some e else node_at rest k)"

definition current_mode :: "head_info \<Rightarrow> mode_info option" where
  "current_mode head = (case current head of None \<Rightarrow> None | Some k \<Rightarrow> node_at (modes head) k)"

text \<open>
  A pointer \<^verbatim>\<open>current\<close> that is not NULL designates a node of the list: \<open>current_valid\<close>.
  The handlers keep it so (shown below), hence \<open>current_mode\<close> is \<open>None\<close> exactly when the
  pointer is NULL.
\<close>

definition current_valid :: "head_info \<Rightarrow> bool" where
  "current_valid info \<longleftrightarrow>
     (case current info of None \<Rightarrow> True | Some k \<Rightarrow> k < length (modes info))"

section \<open>Mode selector\<close>

text \<open>
  \<^verbatim>\<open>select_fullscreen_mode\<close>: one pass over the modes. Every entry flagged preferred
  overwrites \<^verbatim>\<open>preferred\<close>; an entry replaces \<^verbatim>\<open>largest\<close> only when its area is strictly
  greater than \<^verbatim>\<open>largest_area\<close>, which starts at \<open>-1\<close>. The area is computed in 64 bits
  from the sign-extended fields.
\<close>

definition area :: "mode_info \<Rightarrow> int64_t" where
  "area entry = scast (mode_info.width entry) * scast (mode_info.height entry)"

abbreviation pixels :: "mode_info \<Rightarrow> int" where
  "pixels entry \<equiv> sint (mode_info.width entry) * sint (mode_info.height entry)"

fun select_loop ::
  "mode_info list \<Rightarrow> mode_info option \<Rightarrow> mode_info option \<Rightarrow> int64_t
     \<Rightarrow> mode_info option \<times> mode_info option" where
  "select_loop [] pref largest largest_area = (pref, largest)"
| "select_loop (entry # rest) pref largest largest_area =
     (let pref' = (if preferred entry then Some entry else pref)
      in if largest_area <s area entry
         then select_loop rest pref' (Some entry) (area entry)
         else select_loop rest pref' largest largest_area)"

definition select_fullscreen_mode :: "head_info \<Rightarrow> mode_info option" where
  "select_fullscreen_mode head =
     (case select_loop (modes head) None None (- 1) of
        (pref, largest) \<Rightarrow> (case pref of Some p \<Rightarrow> Some p | None \<Rightarrow> largest))"

section \<open>Protocol event sink\<close>

text \<open>
  The listeners. Each handler receives its \<^verbatim>\<open>data\<close> pointer, here the record it updates.
  A handler that calls \<^verbatim>\<open>calloc\<close> takes the outcome of the allocation as a parameter
  (\<open>True\<close>: memory was obtained); \<^verbatim>\<open>strdup\<close>, whose result the source never checks, is
  taken to succeed. A C string ends at its first NUL byte: \<open>c_string\<close> is the string held
  by a buffer of bytes.
\<close>

definition c_string :: "string \<Rightarrow> string" where
  "c_string s = takeWhile (\<lambda>c. c \<noteq> CHR 0x00) s"

definition strdup :: "string \<Rightarrow> string" where
  "strdup s = c_string s"

definition strcmp_eq :: "string \<Rightarrow> string \<Rightarrow> bool" where
  "strcmp_eq a b \<longleftrightarrow> c_string a = c_string b"

definition mode_handle_size :: "mode_info \<Rightarrow> int32_t \<Rightarrow> int32_t \<Rightarrow> mode_info" where
  "mode_handle_size info w h = info\<lparr>mode_info.width := w, mode_info.height := h\<rparr>"

definition mode_handle_refresh :: "mode_info \<Rightarrow> int32_t \<Rightarrow> mode_info" where
  "mode_handle_refresh info r = info\<lparr>mode_info.refresh := r\<rparr>"

definition mode_handle_preferred :: "mode_info \<Rightarrow> mode_info" where
  "mode_handle_preferred info = info\<lparr>preferred := True\<rparr>"

definition mode_handle_finished :: "mode_info \<Rightarrow> mode_info" where
  "mode_handle_finished info = info"

definition head_handle_name :: "head_info \<Rightarrow> string \<Rightarrow> head_info" where
  "head_handle_name info n = info\<lparr>head_info.name := Some (strdup n)\<rparr>"

definition head_handle_enabled :: "head_info \<Rightarrow> int32_t \<Rightarrow> head_info" where
  "head_handle_enabled info e = info\<lparr>enabled := (e \<noteq> 0)\<rparr>"

definition head_handle_mode :: "head_info \<Rightarrow> nat \<Rightarrow> bool \<Rightarrow> head_info" where
  "head_handle_mode info mode allocated =
     (if \<not> allocated then info
      else info\<lparr>modes :=
             \<lparr>mode_info.obj = mode, width = 0, height = 0, refresh = 0, preferred = False\<rparr>
               # modes info\<rparr>)"

text \<open>
  \<^verbatim>\<open>head_handle_current_mode\<close> scans the modes for the first entry whose protocol object
  is the one of the event; \<open>find_current\<close> is that scan and yields the pointer to the entry
  found. When the scan ends without a match, nothing is assigned.
\<close>

fun find_current :: "mode_info list \<Rightarrow> nat \<Rightarrow> nat option" where
  "find_current [] mode = None"
| "find_current (entry # rest) mode =
     (if mode_info.obj entry = mode then Some (length rest) else find_current rest mode)"

definition head_handle_current_mode :: "head_info \<Rightarrow> nat \<Rightarrow> head_info" where
  "head_handle_current_mode info mode =
     (case find_current (modes info) mode of
        None \<Rightarrow> info
      | Some k \<Rightarrow> info\<lparr>current := Some k\<rparr>)"

definition head_handle_finished :: "head_info \<Rightarrow> head_info" where
  "head_handle_finished info = info"

text \<open>
  The client state. The C field \<^verbatim>\<open>done\<close> is \<open>done_flag\<close> here; the connection handles
  \<^verbatim>\<open>display\<close> and \<^verbatim>\<open>registry\<close> carry no data of their own.
\<close>

record client_state =
  manager :: "(uint32_t \<times> uint32_t) option"
  serial :: uint32_t
  done_flag :: bool
  heads :: "head_info list"

definition manager_handle_head :: "client_state \<Rightarrow> nat \<Rightarrow> bool \<Rightarrow> client_state" where
  "manager_handle_head state head allocated =
     (if \<not> allocated then state
      else state\<lparr>heads :=
             \<lparr>head_info.obj = head, name = None, enabled = False, current = None, modes = []\<rparr>
               # heads state\<rparr>)"

definition manager_handle_done :: "client_state \<Rightarrow> uint32_t \<Rightarrow> client_state" where
  "manager_handle_done state s = state\<lparr>serial := s, done_flag := True\<rparr>"

definition manager_handle_finished :: "client_state \<Rightarrow> client_state" where
  "manager_handle_finished state = state\<lparr>done_flag := True\<rparr>"

text \<open>
  \<^verbatim>\<open>registry_handle_global\<close> binds the manager when the advertised interface is the output
  manager's, at version \<open>min version 4\<close>; the bound proxy is recorded as the pair of the
  global's name and the bound version.
\<close>

text \<open>
  Modelled from the spec: \<^verbatim>\<open>zwlr_output_manager_v1_interface.name\<close>, a constant of the
  generated protocol header, which is not among the sources. It is the name of the
  output-manager object the specification speaks of, spelled as the program's own
  diagnostic spells it.
\<close>

definition zwlr_output_manager_v1_interface_name :: string where
  "zwlr_output_manager_v1_interface_name = ''zwlr_output_manager_v1''"

definition registry_handle_global ::
  "client_state \<Rightarrow> uint32_t \<Rightarrow> string \<Rightarrow> uint32_t \<Rightarrow> client_state" where
  "registry_handle_global state gname interface version =
     (if strcmp_eq interface zwlr_output_manager_v1_interface_name
      then state\<lparr>manager := Some (gname, if 4 < version then 4 else version)\<rparr>
      else state)"

text \<open>
  Events are delivered by the transport library to the listener registered for the
  object, with the \<^verbatim>\<open>data\<close> pointer given at registration: the \<^verbatim>\<open>head_info\<close> created for a
  head object, the \<^verbatim>\<open>mode_info\<close> created for a mode object. An object for which the
  allocation failed has no listener and its events are dropped. Only the events for which
  the source installs a handler are events of the model.
\<close>

datatype event =
    Manager_head nat
  | Manager_done uint32_t
  | Manager_finished
  | Head_name nat string
  | Head_enabled nat int32_t
  | Head_mode nat nat
  | Head_current_mode nat nat
  | Head_finished nat
  | Mode_size nat int32_t int32_t
  | Mode_refresh nat int32_t
  | Mode_preferred nat
  | Mode_finished nat

fun update_first :: "('a \<Rightarrow> bool) \<Rightarrow> ('a \<Rightarrow> 'a) \<Rightarrow> 'a list \<Rightarrow> 'a list" where
  "update_first P f [] = []"
| "update_first P f (x # xs) = (if P x then f x # xs else x # update_first P f xs)"

definition on_head :: "nat \<Rightarrow> (head_info \<Rightarrow> head_info) \<Rightarrow> client_state \<Rightarrow> client_state" where
  "on_head h f state = state\<lparr>heads := update_first (\<lambda>i. head_info.obj i = h) f (heads state)\<rparr>"

definition on_mode :: "nat \<Rightarrow> (mode_info \<Rightarrow> mode_info) \<Rightarrow> client_state \<Rightarrow> client_state" where
  "on_mode m f state =
     state\<lparr>heads :=
       update_first (\<lambda>i. \<exists>e \<in> set (modes i). mode_info.obj e = m)
         (\<lambda>i. i\<lparr>modes := update_first (\<lambda>e. mode_info.obj e = m) f (modes i)\<rparr>)
         (heads state)\<rparr>"

fun dispatch :: "client_state \<Rightarrow> event \<times> bool \<Rightarrow> client_state" where
  "dispatch state (Manager_head h, allocated) = manager_handle_head state h allocated"
| "dispatch state (Manager_done s, allocated) = manager_handle_done state s"
| "dispatch state (Manager_finished, allocated) = manager_handle_finished state"
| "dispatch state (Head_name h n, allocated) = on_head h (\<lambda>i. head_handle_name i n) state"
| "dispatch state (Head_enabled h e, allocated) = on_head h (\<lambda>i. head_handle_enabled i e) state"
| "dispatch state (Head_mode h m, allocated) =
     on_head h (\<lambda>i. head_handle_mode i m allocated) state"
| "dispatch state (Head_current_mode h m, allocated) =
     on_head h (\<lambda>i. head_handle_current_mode i m) state"
| "dispatch state (Head_finished h, allocated) = on_head h head_handle_finished state"
| "dispatch state (Mode_size m w h, allocated) = on_mode m (\<lambda>i. mode_handle_size i w h) state"
| "dispatch state (Mode_refresh m r, allocated) = on_mode m (\<lambda>i. mode_handle_refresh i r) state"
| "dispatch state (Mode_preferred m, allocated) = on_mode m mode_handle_preferred state"
| "dispatch state (Mode_finished m, allocated) = on_mode m mode_handle_finished state"

section \<open>The outside world\<close>

text \<open>
  What the program does to its surroundings: the files it reads and writes, the messages
  it prints on the diagnostic stream, and the requests it sends on the configuration
  protocol, in order. \<open>files\<close> gives the content of every file that can be opened for
  reading; \<open>writable\<close> tells whether \<^verbatim>\<open>fopen(path, "w")\<close> succeeds.
\<close>

datatype diagnostic =
    Failed_to_open_state_file string
  | Restore_requires_state_file
  | No_state_entries string
  | Usage string
  | Failed_to_connect
  | Manager_not_advertised
  | Roundtrip_failed

datatype request =
    Create_configuration uint32_t
  | Enable_head nat
  | Set_mode nat nat
  | Apply_configuration
  | Destroy_configuration

record world =
  files :: "string \<Rightarrow> string option"
  writable :: "string \<Rightarrow> bool"
  stderr :: "diagnostic list"
  requests :: "request list"

definition report :: "diagnostic \<Rightarrow> world \<Rightarrow> world" where
  "report d w = w\<lparr>stderr := stderr w @ [d]\<rparr>"

definition send :: "request list \<Rightarrow> world \<Rightarrow> world" where
  "send rs w = w\<lparr>requests := requests w @ rs\<rparr>"

section \<open>State persistence codec\<close>

subsection \<open>Writing\<close>

text \<open>
  \<^verbatim>\<open>save_state\<close> writes one line \<^verbatim>\<open>"%s %d %d %d\\n"\<close> for every head that has a name and a
  current mode. \<open>print_d\<close> is the conversion \<^verbatim>\<open>%d\<close> of \<^verbatim>\<open>fprintf\<close>.
\<close>

definition digit_char :: "nat \<Rightarrow> char" where
  "digit_char d = char_of (48 + d)"

fun digits_of :: "nat \<Rightarrow> string" where
  "digits_of n = (if n < 10 then [digit_char n] else digits_of (n div 10) @ [digit_char (n mod 10)])"

declare digits_of.simps [simp del]

definition print_d :: "int \<Rightarrow> string" where
  "print_d i = (if i < 0 then CHR ''-'' # digits_of (nat (- i)) else digits_of (nat i))"

definition state_line :: "string \<Rightarrow> int32_t \<Rightarrow> int32_t \<Rightarrow> int32_t \<Rightarrow> string" where
  "state_line n w h r =
     c_string n @ '' '' @ print_d (sint w) @ '' '' @ print_d (sint h) @ '' '' @ print_d (sint r)
       @ [CHR 0x0A]"

fun save_loop :: "head_info list \<Rightarrow> string" where
  "save_loop [] = []"
| "save_loop (head # rest) =
     (case head_info.name head of
        None \<Rightarrow> save_loop rest
      | Some n \<Rightarrow>
          (case current_mode head of
             None \<Rightarrow> save_loop rest
           | Some m \<Rightarrow>
               state_line n (mode_info.width m) (mode_info.height m) (mode_info.refresh m)
                 @ save_loop rest))"

definition save_state :: "string \<Rightarrow> client_state \<Rightarrow> world \<Rightarrow> int \<times> world" where
  "save_state path state w =
     (if \<not> writable w path then (- 1, report (Failed_to_open_state_file path) w)
      else (0, w\<lparr>files := (files w)(path \<mapsto> save_loop (heads state))\<rparr>))"

subsection \<open>Reading\<close>

text \<open>
  \<^verbatim>\<open>load_state\<close> calls \<^verbatim>\<open>fscanf(fp, "%255s %d %d %d", ...)\<close> until it returns something other
  than 4. The conversions, on the bytes not yet read:
  \<^item> \<^verbatim>\<open>%255s\<close> skips white space, then takes the non-space bytes that follow, at most 255;
    at the end of the input it fails;
  \<^item> \<^verbatim>\<open>%d\<close> skips white space, then takes an optional sign and the decimal digits that
    follow; with no digit it fails. The digits are converted as \<^verbatim>\<open>strtol\<close> does, to a
    \<^verbatim>\<open>long\<close> of 64 bits that saturates at \<^verbatim>\<open>LONG_MAX\<close> and \<^verbatim>\<open>LONG_MIN\<close>, and the \<^verbatim>\<open>long\<close> is
    stored in the \<^verbatim>\<open>int\<close>, which keeps its low 32 bits: \<open>store_d\<close>. (This is what the C
    library of the platform does for a number that does not fit, where the C standard
    leaves the result open.)
  The return value is the number of fields assigned, or \<^verbatim>\<open>EOF\<close> (\<open>-1\<close>) when the input ends
  before the first one.
\<close>

definition isspace :: "char \<Rightarrow> bool" where
  "isspace c \<longleftrightarrow> (of_char c :: nat) = 32 \<or> (9 \<le> (of_char c :: nat) \<and> (of_char c :: nat) \<le> 13)"

definition isdigit :: "char \<Rightarrow> bool" where
  "isdigit c \<longleftrightarrow> 48 \<le> (of_char c :: nat) \<and> (of_char c :: nat) \<le> 57"

definition scan_s :: "nat \<Rightarrow> string \<Rightarrow> (string \<times> string) option" where
  "scan_s n inp =
     (let s = dropWhile isspace inp
      in if s = [] then None
         else let tok = take n (takeWhile (\<lambda>c. \<not> isspace c) s)
              in Some (tok, drop (length tok) s))"

definition dec_value :: "string \<Rightarrow> int" where
  "dec_value ds = foldl (\<lambda>acc c. acc * 10 + (of_char c - 48)) 0 ds"

definition scan_d :: "string \<Rightarrow> (int \<times> string) option" where
  "scan_d inp =
     (let s = dropWhile isspace inp;
          neg = (s \<noteq> [] \<and> hd s = CHR ''-'');
          s1 = (if s \<noteq> [] \<and> (hd s = CHR ''-'' \<or> hd s = CHR ''+'') then tl s else s);
          ds = takeWhile isdigit s1
      in if ds = [] then None
         else Some (if neg then - dec_value ds else dec_value ds, drop (length ds) s1))"

definition store_d :: "int \<Rightarrow> int32_t" where
  "store_d v = word_of_int (max (- (2 ^ 63)) (min (2 ^ 63 - 1) v))"

datatype scanned = Matched string int32_t int32_t int32_t string | Stopped int

definition fscanf_entry :: "string \<Rightarrow> scanned" where
  "fscanf_entry inp =
     (case scan_s 255 inp of
        None \<Rightarrow> Stopped (- 1)
      | Some (n, r1) \<Rightarrow>
          (case scan_d r1 of
             None \<Rightarrow> Stopped 1
           | Some (w, r2) \<Rightarrow>
               (case scan_d r2 of
                  None \<Rightarrow> Stopped 2
                | Some (h, r3) \<Rightarrow>
                    (case scan_d r3 of
                       None \<Rightarrow> Stopped 3
                     | Some (r, r4) \<Rightarrow> Matched n (store_d w) (store_d h) (store_d r) r4))))"

record restore_entry =
  name :: string
  width :: int32_t
  height :: int32_t
  refresh :: int32_t

lemma scan_s_shorter: "scan_s (Suc n) inp = Some (tok, rest) \<Longrightarrow> length rest < length inp"
proof -
  assume a: "scan_s (Suc n) inp = Some (tok, rest)"
  let ?s = "dropWhile isspace inp"
  from a have ne: "?s \<noteq> []" and tok: "tok = take (Suc n) (takeWhile (\<lambda>c. \<not> isspace c) ?s)"
    and rest: "rest = drop (length tok) ?s"
    by (auto simp: scan_s_def Let_def split: if_splits)
  from ne have "\<not> isspace (hd ?s)" by (rule hd_dropWhile)
  with ne have "tok \<noteq> []" unfolding tok by (cases ?s) auto
  with ne rest have "length rest < length ?s" by simp
  also have "length ?s \<le> length inp" by (rule length_dropWhile_le)
  finally show ?thesis .
qed

lemma scan_d_shorter: "scan_d inp = Some (v, rest) \<Longrightarrow> length rest \<le> length inp"
proof -
  assume a: "scan_d inp = Some (v, rest)"
  let ?s = "dropWhile isspace inp"
  obtain s1 where rest: "rest = drop (length (takeWhile isdigit s1)) s1" and s1: "s1 = ?s \<or> s1 = tl ?s"
    using a by (auto simp: scan_d_def Let_def split: if_splits)
  have "length rest \<le> length s1" unfolding rest by simp
  also have "length s1 \<le> length ?s" using s1 by auto
  also have "length ?s \<le> length inp" by (rule length_dropWhile_le)
  finally show ?thesis .
qed

lemma fscanf_entry_shorter:
  "fscanf_entry inp = Matched n w h r rest \<Longrightarrow> length rest < length inp"
  unfolding fscanf_entry_def
  by (auto split: option.splits prod.splits simp: numeral_eq_Suc
      dest!: scan_s_shorter scan_d_shorter)

text \<open>
  The loop of \<^verbatim>\<open>load_state\<close>. Every matched record is allocated and inserted in front of
  the list; when the allocation fails the record is dropped and the loop goes on.
  \<open>mem k\<close> tells whether the \<open>k\<close>-th \<^verbatim>\<open>calloc\<close> of the loop succeeds.
\<close>

function load_loop ::
  "(nat \<Rightarrow> bool) \<Rightarrow> nat \<Rightarrow> string \<Rightarrow> restore_entry list \<Rightarrow> restore_entry list" where
  "load_loop mem k inp entries =
     (case fscanf_entry inp of
        Stopped n \<Rightarrow> entries
      | Matched n w h r rest \<Rightarrow>
          if \<not> mem k then load_loop mem (Suc k) rest entries
          else load_loop mem (Suc k) rest
                 (\<lparr>restore_entry.name = strdup n, width = w, height = h, refresh = r\<rparr>
                    # entries))"
  by pat_completeness auto
termination
  by (relation "measure (\<lambda>(mem, k, inp, entries). length inp)")
     (auto dest: fscanf_entry_shorter)

declare load_loop.simps [simp del]

text \<open>
  \<^verbatim>\<open>load_state\<close> builds the list in a local \<^verbatim>\<open>struct wl_list entries\<close> and returns that
  struct by value. The links of a list point at the head they were made for: the copy the
  caller receives leads to the entries, newest first, but the link behind the oldest entry
  (with no entry at all, the first link of the copy) points at the local head of
  \<^verbatim>\<open>load_state\<close>, whose frame is gone, and never back at the copy. An \<open>entry_list\<close> holds
  the entries that are reached in front of that link, and \<open>closed\<close> tells whether the link
  behind them leads back to the head one walks from. The list \<^verbatim>\<open>load_state\<close> returns is
  not closed, whether the file could be opened or not.

  On a list that is not closed
  \<^item> \<^verbatim>\<open>wl_list_empty\<close> is false, its first link not being the address of the copy;
  \<^item> a walk (\<^verbatim>\<open>wl_list_for_each\<close>) that is not left before the oldest entry goes on in the
    dead frame;
  \<^item> \<^verbatim>\<open>free_restore_entries\<close> unlinks the newest entry by writing through its back link,
    which is the dead head, and ends in the dead frame as well.
  These steps are undefined behaviour: the fault \<open>Dangling_link\<close>. A function that can reach
  it returns the fault (\<open>Inl\<close>) or its result (\<open>Inr\<close>).
\<close>

record entry_list =
  nodes :: "restore_entry list"
  closed :: bool

datatype fault = Dangling_link

definition wl_list_empty :: "entry_list \<Rightarrow> bool" where
  "wl_list_empty entries \<longleftrightarrow> closed entries \<and> nodes entries = []"

definition load_state :: "world \<Rightarrow> string \<Rightarrow> (nat \<Rightarrow> bool) \<Rightarrow> entry_list" where
  "load_state w path mem =
     \<lparr>nodes = (case files w path of None \<Rightarrow> [] | Some content \<Rightarrow> load_loop mem 0 content []),
      closed = False\<rparr>"

fun find_entry_loop :: "restore_entry list \<Rightarrow> bool \<Rightarrow> string \<Rightarrow> fault + restore_entry option" where
  "find_entry_loop [] at_head n = (if at_head then Inr None else Inl Dangling_link)"
| "find_entry_loop (entry # rest) at_head n =
     (if strcmp_eq (restore_entry.name entry) n then Inr (Some entry)
      else find_entry_loop rest at_head n)"

definition find_restore_entry :: "entry_list \<Rightarrow> string \<Rightarrow> fault + restore_entry option" where
  "find_restore_entry entries n = find_entry_loop (nodes entries) (closed entries) n"

definition free_restore_entries :: "entry_list \<Rightarrow> fault option" where
  "free_restore_entries entries = (if closed entries then None else Some Dangling_link)"

fun find_mode_loop :: "mode_info list \<Rightarrow> int32_t \<Rightarrow> int32_t \<Rightarrow> int32_t \<Rightarrow> mode_info option" where
  "find_mode_loop [] w h r = None"
| "find_mode_loop (entry # rest) w h r =
     (if mode_info.width entry = w \<and> mode_info.height entry = h \<and> mode_info.refresh entry = r
      then Some entry else find_mode_loop rest w h r)"

definition find_mode :: "head_info \<Rightarrow> int32_t \<Rightarrow> int32_t \<Rightarrow> int32_t \<Rightarrow> mode_info option" where
  "find_mode head w h r = find_mode_loop (modes head) w h r"

subsection \<open>State files in the words of the specification\<close>

text \<open>
  The notions the statements about the codec are written with. A name can be stored when
  it is not empty, has at most 255 bytes and holds no white space (and, being a C string,
  no NUL byte). \<open>entry_line\<close> is the record of the file format for an entry: the line
  \<^verbatim>\<open>save_state\<close> writes for a head with that name whose current mode has these dimensions
  and refresh rate. \<open>saved_entry\<close> is the entry expected back for a head: none when the
  head lacks a name or a current mode.
\<close>

definition storable_name :: "string \<Rightarrow> bool" where
  "storable_name n \<longleftrightarrow>
     n \<noteq> [] \<and> length n \<le> 255 \<and> (\<forall>c \<in> set n. \<not> isspace c \<and> c \<noteq> CHR 0x00)"

definition entry_line :: "restore_entry \<Rightarrow> string" where
  "entry_line e =
     state_line (restore_entry.name e) (restore_entry.width e) (restore_entry.height e)
       (restore_entry.refresh e)"

definition saved_entry :: "head_info \<Rightarrow> restore_entry option" where
  "saved_entry head =
     (case head_info.name head of
        None \<Rightarrow> None
      | Some n \<Rightarrow>
          (case current_mode head of
             None \<Rightarrow> None
           | Some m \<Rightarrow>
               Some \<lparr>restore_entry.name = n, width = mode_info.width m,
                     height = mode_info.height m, refresh = mode_info.refresh m\<rparr>))"



section \<open>Configuration builder and applier\<close>

text \<open>
  Both operations create one configuration with the stored serial, visit the heads in
  list order, and for a head with a target mode send \<^verbatim>\<open>enable_head\<close> followed by
  \<^verbatim>\<open>set_mode\<close> on the configuration head just obtained (named here by the head it was
  obtained for); then they apply and destroy the configuration. The source sends no other
  request on a configuration. The result of the final \<^verbatim>\<open>wl_display_roundtrip\<close> is ignored
  and the state is not read after it.

  \<^verbatim>\<open>apply_fullscreen\<close> calls \<^verbatim>\<open>save_state\<close> when a state file is given and discards its
  result.
\<close>

fun fullscreen_loop :: "head_info list \<Rightarrow> request list" where
  "fullscreen_loop [] = []"
| "fullscreen_loop (head # rest) =
     (case select_fullscreen_mode head of
        None \<Rightarrow> fullscreen_loop rest
      | Some mode \<Rightarrow>
          Enable_head (head_info.obj head) # Set_mode (head_info.obj head) (mode_info.obj mode)
            # fullscreen_loop rest)"

definition apply_fullscreen :: "client_state \<Rightarrow> string option \<Rightarrow> world \<Rightarrow> int \<times> world" where
  "apply_fullscreen state state_file w =
     (let w1 = (case state_file of None \<Rightarrow> w | Some path \<Rightarrow> snd (save_state path state w))
      in (0, send (Create_configuration (serial state) # fullscreen_loop (heads state)
                     @ [Apply_configuration, Destroy_configuration]) w1))"

text \<open>
  \<^verbatim>\<open>apply_restore\<close>. The loop carries the requests sent so far; when a lookup reaches the
  fault, the operation ends there with the requests sent until then. After the loop the
  configuration is applied and destroyed, the round trip is made, and only then the
  entries are freed.
\<close>

fun restore_loop ::
  "entry_list \<Rightarrow> head_info list \<Rightarrow> request list \<Rightarrow> (fault \<times> request list) + request list" where
  "restore_loop entries [] sent = Inr sent"
| "restore_loop entries (head # rest) sent =
     (case head_info.name head of
        None \<Rightarrow> restore_loop entries rest sent
      | Some n \<Rightarrow>
          (case find_restore_entry entries n of
             Inl f \<Rightarrow> Inl (f, sent)
           | Inr None \<Rightarrow> restore_loop entries rest sent
           | Inr (Some entry) \<Rightarrow>
               (case find_mode head (restore_entry.width entry) (restore_entry.height entry)
                       (restore_entry.refresh entry) of
                  None \<Rightarrow> restore_loop entries rest sent
                | Some mode \<Rightarrow>
                    restore_loop entries rest
                      (sent @ [Enable_head (head_info.obj head),
                               Set_mode (head_info.obj head) (mode_info.obj mode)]))))"

definition apply_restore ::
  "client_state \<Rightarrow> string option \<Rightarrow> (nat \<Rightarrow> bool) \<Rightarrow> world
     \<Rightarrow> (fault \<times> world) + (int \<times> world)" where
  "apply_restore state state_file mem w =
     (case state_file of
        None \<Rightarrow> Inr (1, report Restore_requires_state_file w)
      | Some path \<Rightarrow>
          (let entries = load_state w path mem
           in if wl_list_empty entries then Inr (1, report (No_state_entries path) w)
              else
                (case restore_loop entries (heads state) [Create_configuration (serial state)] of
                   Inl (f, sent) \<Rightarrow> Inl (f, send sent w)
                 | Inr sent \<Rightarrow>
                     (let w' = send (sent @ [Apply_configuration, Destroy_configuration]) w
                      in case free_restore_entries entries of
                           Some f \<Rightarrow> Inl (f, w')
                         | None \<Rightarrow> Inr (0, w')))))"

subsection \<open>The transaction in the words of the specification\<close>

text \<open>
  The specification describes one builder for both operations: given a target-mode
  function, the transaction holds, for every head for which the function yields a mode,
  the enabling of that head and the setting of its mode, and nothing for the other heads.
  \<open>head_actions\<close> and \<open>transaction_for\<close> say this; \<open>restore_target\<close> is the target-mode
  function of the restore operation ("lookup in restored entries by name, dimensions and
  refresh"), on the entries as a plain list. The loops above are compared with them below.
\<close>

definition head_actions :: "(head_info \<Rightarrow> mode_info option) \<Rightarrow> head_info \<Rightarrow> request list" where
  "head_actions target head =
     (case target head of
        None \<Rightarrow> []
      | Some mode \<Rightarrow>
          [Enable_head (head_info.obj head), Set_mode (head_info.obj head) (mode_info.obj mode)])"

definition transaction_for ::
  "(head_info \<Rightarrow> mode_info option) \<Rightarrow> client_state \<Rightarrow> request list" where
  "transaction_for target state =
     Create_configuration (serial state) # concat (map (head_actions target) (heads state))
       @ [Apply_configuration, Destroy_configuration]"

definition restore_target :: "restore_entry list \<Rightarrow> head_info \<Rightarrow> mode_info option" where
  "restore_target entries head =
     (case head_info.name head of
        None \<Rightarrow> None
      | Some n \<Rightarrow>
          (case find (\<lambda>e. strcmp_eq (restore_entry.name e) n) entries of
             None \<Rightarrow> None
           | Some entry \<Rightarrow>
               find_mode head (restore_entry.width entry) (restore_entry.height entry)
                 (restore_entry.refresh entry)))"

section \<open>The program\<close>




definition initial_state :: client_state where
  "initial_state = \<lparr>manager = None, serial = 0, done_flag = False, heads = []\<rparr>"

definition first_roundtrip :: "(uint32_t \<times> string \<times> uint32_t) list \<Rightarrow> client_state" where
  "first_roundtrip gs =
     foldl (\<lambda>s (gname, interface, version). registry_handle_global s gname interface version)
       initial_state gs"


section \<open>Properties of the mode selector\<close>

text \<open>
  The 64-bit product of two sign-extended 32-bit fields never wraps, so comparing areas is
  comparing the products of the fields as integers.
\<close>

lemma area_sint: "sint (area e) = sint (mode_info.width e) * sint (mode_info.height e)"
proof -
  let ?w = "sint (mode_info.width e)" and ?h = "sint (mode_info.height e)"
  have w: "\<bar>?w\<bar> \<le> 2 ^ 31"
    using sint_ge [of "mode_info.width e"] sint_lt [of "mode_info.width e"] by simp
  have h: "\<bar>?h\<bar> \<le> 2 ^ 31"
    using sint_ge [of "mode_info.height e"] sint_lt [of "mode_info.height e"] by simp
  have "\<bar>?w * ?h\<bar> \<le> 2 ^ 31 * 2 ^ 31"
    unfolding abs_mult by (rule mult_mono [OF w h]) simp_all
  then have b: "- (2 ^ 63) \<le> ?w * ?h" "?w * ?h < 2 ^ 63"
    by simp_all
  have "sint (area e) = signed_take_bit 63 (?w * ?h)"
    by (simp add: area_def sint_word_mult sint_up_scast is_up)
  also have "\<dots> = ?w * ?h"
    using b by (rule signed_take_bit_int_eq_self)
  finally show ?thesis .
qed

lemma area_less: "area x <s area y \<longleftrightarrow> pixels x < pixels y"
  by (simp add: word_sless_alt area_sint)

lemma area_nonneg: "- 1 <s area x \<longleftrightarrow> 0 \<le> pixels x"
proof -
  have "- 1 <s area x \<longleftrightarrow> - 1 < pixels x"
    by (simp add: word_sless_alt area_sint)
  then show ?thesis by linarith
qed

lemma select_loop_fst:
  "fst (select_loop xs pref largest la) =
     (if filter preferred xs = [] then pref else Some (last (filter preferred xs)))"
  by (induction xs arbitrary: pref largest la) (simp_all add: Let_def)

lemma select_loop_snd_keep:
  "\<forall>x \<in> set xs. \<not> la <s area x \<Longrightarrow> snd (select_loop xs pref largest la) = largest"
  by (induction xs arbitrary: pref) (simp_all add: Let_def)

lemma select_loop_snd_first_max:
  "\<lbrakk>\<forall>x \<in> set pre. area x <s area m; la <s area m; \<forall>x \<in> set post. \<not> area m <s area x\<rbrakk>
     \<Longrightarrow> snd (select_loop (pre @ m # post) pref largest la) = Some m"
proof (induction pre arbitrary: pref largest la)
  case Nil
  then show ?case by (simp add: Let_def select_loop_snd_keep)
next
  case (Cons x pre)
  then show ?case by (simp add: Let_def)
qed

lemma select_fullscreen_mode_eq:
  "select_fullscreen_mode head =
     (if filter preferred (modes head) = []
      then snd (select_loop (modes head) None None (- 1))
      else Some (last (filter preferred (modes head))))"
proof -
  obtain p l where pl: "select_loop (modes head) None None (- 1) = (p, l)"
    by (cases "select_loop (modes head) None None (- 1)")
  from select_loop_fst [of "modes head" None None "- 1"] pl
  have "p = (if filter preferred (modes head) = [] then None
             else Some (last (filter preferred (modes head))))"
    by simp
  with pl show ?thesis
    by (simp add: select_fullscreen_mode_def)
qed

text \<open>
  Claim C2, as the code has it. For every head: when exactly one mode is flagged preferred,
  \<open>select_fullscreen_mode\<close> returns it, whatever its area; when no mode is flagged
  preferred and some mode has a non-negative area \<open>width \<times> height\<close>, it returns the first
  mode of the enumeration whose area is maximal; when no mode is flagged preferred and
  every area is negative it returns none, because \<^verbatim>\<open>largest_area\<close> starts at \<open>-1\<close> and is
  only replaced by a strictly greater area; with no mode at all it returns none.
\<close>

theorem select_fullscreen_mode_spec:
  "(filter preferred (modes head) = [p] \<longrightarrow> select_fullscreen_mode head = Some p) \<and>
   (filter preferred (modes head) = [] \<and> modes head = pre @ m # post \<and>
      (\<forall>x \<in> set pre. pixels x < pixels m) \<and> (\<forall>x \<in> set post. pixels x \<le> pixels m) \<and>
      0 \<le> pixels m
      \<longrightarrow> select_fullscreen_mode head = Some m) \<and>
   (filter preferred (modes head) = [] \<and> (\<forall>x \<in> set (modes head). pixels x < 0)
      \<longrightarrow> select_fullscreen_mode head = None) \<and>
   (modes head = [] \<longrightarrow> select_fullscreen_mode head = None)"
proof (intro conjI impI)
  assume "filter preferred (modes head) = [p]"
  then show "select_fullscreen_mode head = Some p"
    by (simp add: select_fullscreen_mode_eq)
next
  assume a: "filter preferred (modes head) = [] \<and> modes head = pre @ m # post \<and>
      (\<forall>x \<in> set pre. pixels x < pixels m) \<and> (\<forall>x \<in> set post. pixels x \<le> pixels m) \<and>
      0 \<le> pixels m"
  then have np: "filter preferred (modes head) = []" and md: "modes head = pre @ m # post"
    by blast+
  have "select_fullscreen_mode head = snd (select_loop (modes head) None None (- 1))"
    using np by (simp add: select_fullscreen_mode_eq)
  also have "\<dots> = Some m"
    unfolding md using a by (intro select_loop_snd_first_max) (auto simp: area_less area_nonneg)
  finally show "select_fullscreen_mode head = Some m" .
next
  assume a: "filter preferred (modes head) = [] \<and> (\<forall>x \<in> set (modes head). pixels x < 0)"
  then have "snd (select_loop (modes head) None None (- 1)) = None"
    by (intro select_loop_snd_keep) (auto simp: area_nonneg)
  with a show "select_fullscreen_mode head = None"
    by (simp add: select_fullscreen_mode_eq)
next
  assume "modes head = []"
  then show "select_fullscreen_mode head = None"
    by (simp add: select_fullscreen_mode_def)
qed

text \<open>
  The examples of the specification: a preferred 1280\<times>720 mode wins over a larger
  1920\<times>1080 mode; among 1920\<times>1080, 3840\<times>2160 and 2560\<times>1440, none preferred, the
  3840\<times>2160 mode is returned; a head whose only mode is \<open>-1\<times>1\<close> gets none.
\<close>

theorem select_fullscreen_mode_spec_witness:
  "select_fullscreen_mode
     \<lparr>head_info.obj = 1, name = Some ''eDP-1'', enabled = True, current = None,
      modes = [\<lparr>mode_info.obj = 2, width = 1920, height = 1080, refresh = 60, preferred = False\<rparr>,
               \<lparr>mode_info.obj = 3, width = 1280, height = 720, refresh = 60, preferred = True\<rparr>]\<rparr>
     = Some \<lparr>mode_info.obj = 3, width = 1280, height = 720, refresh = 60, preferred = True\<rparr> \<and>
   select_fullscreen_mode
     \<lparr>head_info.obj = 1, name = Some ''eDP-1'', enabled = True, current = None,
      modes = [\<lparr>mode_info.obj = 2, width = 1920, height = 1080, refresh = 60, preferred = False\<rparr>,
               \<lparr>mode_info.obj = 3, width = 3840, height = 2160, refresh = 60, preferred = False\<rparr>,
               \<lparr>mode_info.obj = 4, width = 2560, height = 1440, refresh = 60, preferred = False\<rparr>]\<rparr>
     = Some \<lparr>mode_info.obj = 3, width = 3840, height = 2160, refresh = 60, preferred = False\<rparr> \<and>
   select_fullscreen_mode
     \<lparr>head_info.obj = 1, name = Some ''eDP-1'', enabled = True, current = None,
      modes = [\<lparr>mode_info.obj = 2, width = - 1, height = 1, refresh = 60, preferred = False\<rparr>]\<rparr>
     = None"
  using
    select_fullscreen_mode_spec
      [of "\<lparr>head_info.obj = 1, name = Some ''eDP-1'', enabled = True, current = None,
      modes = [\<lparr>mode_info.obj = 2, width = 1920, height = 1080, refresh = 60, preferred = False\<rparr>,
               \<lparr>mode_info.obj = 3, width = 1280, height = 720, refresh = 60, preferred = True\<rparr>]\<rparr>"
          "\<lparr>mode_info.obj = 3, width = 1280, height = 720, refresh = 60, preferred = True\<rparr>"]
    select_fullscreen_mode_spec
      [of "\<lparr>head_info.obj = 1, name = Some ''eDP-1'', enabled = True, current = None,
      modes = [\<lparr>mode_info.obj = 2, width = 1920, height = 1080, refresh = 60, preferred = False\<rparr>,
               \<lparr>mode_info.obj = 3, width = 3840, height = 2160, refresh = 60, preferred = False\<rparr>,
               \<lparr>mode_info.obj = 4, width = 2560, height = 1440, refresh = 60, preferred = False\<rparr>]\<rparr>"
          _
          "[\<lparr>mode_info.obj = 2, width = 1920, height = 1080, refresh = 60, preferred = False\<rparr>]"
          "\<lparr>mode_info.obj = 3, width = 3840, height = 2160, refresh = 60, preferred = False\<rparr>"
          "[\<lparr>mode_info.obj = 4, width = 2560, height = 1440, refresh = 60, preferred = False\<rparr>]"]
    select_fullscreen_mode_spec
      [of "\<lparr>head_info.obj = 1, name = Some ''eDP-1'', enabled = True, current = None,
      modes = [\<lparr>mode_info.obj = 2, width = - 1, height = 1, refresh = 60, preferred = False\<rparr>]\<rparr>"]
  by simp

text \<open>
  Claim C2 as stated fails on a head whose only mode, not preferred, has width \<open>-1\<close> and
  height \<open>1\<close>: that mode maximises the area, and none is returned.
\<close>

theorem select_fullscreen_mode_negative_area_counterexample:
  "select_fullscreen_mode
     \<lparr>head_info.obj = 1, name = Some ''eDP-1'', enabled = True, current = None,
      modes = [\<lparr>mode_info.obj = 2, width = - 1, height = 1, refresh = 60, preferred = False\<rparr>]\<rparr>
     = None"
  by (simp add: select_fullscreen_mode_def area_def Let_def)

text \<open>
  Claim C3, as the code has it. For every head with more than one mode flagged preferred,
  \<open>select_fullscreen_mode\<close> returns the last preferred mode of the enumeration: every
  preferred entry overwrites \<^verbatim>\<open>preferred\<close> and the loop does not stop at the first.
\<close>

theorem select_fullscreen_mode_last_preferred:
  "1 < length (filter preferred (modes head)) \<Longrightarrow>
     select_fullscreen_mode head = Some (last (filter preferred (modes head)))"
  by (auto simp: select_fullscreen_mode_eq)

theorem select_fullscreen_mode_last_preferred_witness:
  "1 < length (filter preferred
       [\<lparr>mode_info.obj = 2, width = 1920, height = 1080, refresh = 60, preferred = True\<rparr>,
        \<lparr>mode_info.obj = 3, width = 1280, height = 720, refresh = 60, preferred = True\<rparr>]) \<and>
   select_fullscreen_mode
     \<lparr>head_info.obj = 1, name = Some ''eDP-1'', enabled = True, current = None,
      modes = [\<lparr>mode_info.obj = 2, width = 1920, height = 1080, refresh = 60, preferred = True\<rparr>,
               \<lparr>mode_info.obj = 3, width = 1280, height = 720, refresh = 60, preferred = True\<rparr>]\<rparr>
     = Some \<lparr>mode_info.obj = 3, width = 1280, height = 720, refresh = 60, preferred = True\<rparr>"
  using select_fullscreen_mode_last_preferred
      [of "\<lparr>head_info.obj = 1, name = Some ''eDP-1'', enabled = True, current = None,
      modes = [\<lparr>mode_info.obj = 2, width = 1920, height = 1080, refresh = 60, preferred = True\<rparr>,
               \<lparr>mode_info.obj = 3, width = 1280, height = 720, refresh = 60, preferred = True\<rparr>]\<rparr>"]
  by simp

text \<open>
  Claim C3 as stated fails on a head with two preferred modes: the first one of the
  enumeration is not the one returned.
\<close>

theorem select_fullscreen_mode_first_preferred_counterexample:
  "select_fullscreen_mode
     \<lparr>head_info.obj = 1, name = Some ''eDP-1'', enabled = True, current = None,
      modes = [\<lparr>mode_info.obj = 2, width = 1920, height = 1080, refresh = 60, preferred = True\<rparr>,
               \<lparr>mode_info.obj = 3, width = 1280, height = 720, refresh = 60, preferred = True\<rparr>]\<rparr>
     \<noteq> Some \<lparr>mode_info.obj = 2, width = 1920, height = 1080, refresh = 60, preferred = True\<rparr>"
  by (simp add: select_fullscreen_mode_def area_def Let_def)

section \<open>Properties of the event sink\<close>

lemma update_first_same: "(\<And>x. f x = x) \<Longrightarrow> update_first P f xs = xs"
  by (induction xs) simp_all

lemma on_head_same: "(\<And>x. f x = x) \<Longrightarrow> on_head h f state = state"
  by (simp add: on_head_def update_first_same)

text \<open>
  Claim C6, as the code has it. The handler of a head's \<^verbatim>\<open>finished\<close> event does nothing:
  when the event is processed the client state is unchanged, so the head and all its modes
  stay in the registry.
\<close>

theorem head_finished_keeps_registry:
  "head_handle_finished info = info \<and> dispatch state (Head_finished h, allocated) = state"
  by (simp add: head_handle_finished_def on_head_same)

text \<open>
  Claim C6 as stated fails: after the \<^verbatim>\<open>finished\<close> event of head 7 the registry still holds
  head 7 with its mode.
\<close>

theorem head_finished_counterexample:
  "heads (dispatch
      \<lparr>manager = Some (1, 4), serial = 5, done_flag = True,
       heads = [\<lparr>head_info.obj = 7, name = Some ''eDP-1'', enabled = True, current = Some 0,
                 modes = [\<lparr>mode_info.obj = 8, width = 1920, height = 1080, refresh = 60,
                           preferred = True\<rparr>]\<rparr>]\<rparr>
      (Head_finished 7, True))
   = [\<lparr>head_info.obj = 7, name = Some ''eDP-1'', enabled = True, current = Some 0,
       modes = [\<lparr>mode_info.obj = 8, width = 1920, height = 1080, refresh = 60,
                 preferred = True\<rparr>]\<rparr>]"
  by (simp add: on_head_def head_handle_finished_def)

lemma find_current_no_match:
  "\<forall>e \<in> set ms. mode_info.obj e \<noteq> mode \<Longrightarrow> find_current ms mode = None"
  by (induction ms) simp_all

text \<open>
  Claim C10. When the mode object of a \<^verbatim>\<open>current_mode\<close> event is the object of no mode of
  the head, the handler leaves the head as it is: \<^verbatim>\<open>current\<close> keeps its value and so does
  every other field.
\<close>

theorem head_handle_current_mode_unknown:
  "\<forall>e \<in> set (modes info). mode_info.obj e \<noteq> mode \<Longrightarrow>
     head_handle_current_mode info mode = info"
  by (simp add: head_handle_current_mode_def find_current_no_match)

theorem head_handle_current_mode_unknown_witness:
  "map mode_info.obj
     [\<lparr>mode_info.obj = 8, width = 1920, height = 1080, refresh = 60, preferred = True\<rparr>,
      \<lparr>mode_info.obj = 9, width = 1280, height = 720, refresh = 60, preferred = False\<rparr>] = [8, 9] \<and>
   head_handle_current_mode
     \<lparr>head_info.obj = 7, name = Some ''eDP-1'', enabled = True, current = Some 1,
      modes = [\<lparr>mode_info.obj = 8, width = 1920, height = 1080, refresh = 60, preferred = True\<rparr>,
               \<lparr>mode_info.obj = 9, width = 1280, height = 720, refresh = 60, preferred = False\<rparr>]\<rparr>
     10
   = \<lparr>head_info.obj = 7, name = Some ''eDP-1'', enabled = True, current = Some 1,
      modes = [\<lparr>mode_info.obj = 8, width = 1920, height = 1080, refresh = 60, preferred = True\<rparr>,
               \<lparr>mode_info.obj = 9, width = 1280, height = 720, refresh = 60, preferred = False\<rparr>]\<rparr>"
  using head_handle_current_mode_unknown
     [of "\<lparr>head_info.obj = 7, name = Some ''eDP-1'', enabled = True, current = Some 1,
      modes = [\<lparr>mode_info.obj = 8, width = 1920, height = 1080, refresh = 60, preferred = True\<rparr>,
               \<lparr>mode_info.obj = 9, width = 1280, height = 720, refresh = 60, preferred = False\<rparr>]\<rparr>" 10]
  by simp

subsection \<open>The pointer \<open>current\<close>\<close>

text \<open>
  Inserting a node in front of the list leaves the older nodes where the pointers to them
  say; the scan of \<^verbatim>\<open>head_handle_current_mode\<close> yields a pointer to a node of the list whose
  object is the one looked for; and every handler keeps \<open>current_valid\<close>.
\<close>

lemma node_at_old: "k < length xs \<Longrightarrow> node_at (e # xs) k = node_at xs k"
  by simp

lemma node_at_new: "node_at (e # xs) (length xs) = Some e"
  by simp

lemma node_at_Some_iff: "(\<exists>e. node_at xs k = Some e) \<longleftrightarrow> k < length xs"
  by (induction xs) auto

lemma find_current_points:
  "find_current ms mode = Some k \<Longrightarrow>
     k < length ms \<and> (\<exists>e. node_at ms k = Some e \<and> mode_info.obj e = mode)"
proof (induction ms)
  case Nil
  then show ?case by simp
next
  case (Cons m ms)
  then show ?case by (auto split: if_splits)
qed

lemma current_valid_handlers:
  assumes "current_valid info"
  shows "current_valid (head_handle_name info n)"
    and "current_valid (head_handle_enabled info en)"
    and "current_valid (head_handle_mode info mode allocated)"
    and "current_valid (head_handle_current_mode info mode)"
    and "current_valid (head_handle_finished info)"
  using assms
  by (auto simp: current_valid_def head_handle_name_def head_handle_enabled_def
      head_handle_mode_def head_handle_current_mode_def head_handle_finished_def
      split: option.splits dest: find_current_points)

lemma update_first_pred:
  "\<lbrakk>\<forall>x \<in> set xs. Q x; \<And>x. Q x \<Longrightarrow> Q (f x)\<rbrakk> \<Longrightarrow> \<forall>x \<in> set (update_first P f xs). Q x"
  by (induction xs) auto

lemma length_update_first: "length (update_first P f xs) = length xs"
  by (induction xs) simp_all

lemma current_valid_modes:
  "current_valid info \<Longrightarrow> current_valid (info\<lparr>modes := update_first P f (modes info)\<rparr>)"
  by (simp add: current_valid_def length_update_first split: option.splits)

lemma current_valid_dispatch:
  assumes "\<forall>info \<in> set (heads state). current_valid info"
  shows "\<forall>info \<in> set (heads (dispatch state ev)). current_valid info"
proof (cases "(state, ev)" rule: dispatch.cases)
  case (1 state' h allocated)
  with assms show ?thesis
    by (auto simp: manager_handle_head_def current_valid_def)
next
  case (2 state' s allocated)
  with assms show ?thesis by (simp add: manager_handle_done_def)
next
  case (3 state' allocated)
  with assms show ?thesis by (simp add: manager_handle_finished_def)
next
  case (4 state' h n allocated)
  with assms show ?thesis
    by (simp add: on_head_def) (rule update_first_pred, simp_all add: current_valid_handlers)
next
  case (5 state' h e allocated)
  with assms show ?thesis
    by (simp add: on_head_def) (rule update_first_pred, simp_all add: current_valid_handlers)
next
  case (6 state' h m allocated)
  with assms show ?thesis
    by (simp add: on_head_def) (rule update_first_pred, simp_all add: current_valid_handlers)
next
  case (7 state' h m allocated)
  with assms show ?thesis
    by (simp add: on_head_def) (rule update_first_pred, simp_all add: current_valid_handlers)
next
  case (8 state' h allocated)
  with assms show ?thesis
    by (simp add: on_head_def) (rule update_first_pred, simp_all add: current_valid_handlers)
next
  case (9 state' m w h allocated)
  with assms show ?thesis
    by (simp add: on_mode_def) (rule update_first_pred, simp_all add: current_valid_modes)
next
  case (10 state' m r allocated)
  with assms show ?thesis
    by (simp add: on_mode_def) (rule update_first_pred, simp_all add: current_valid_modes)
next
  case (11 state' m allocated)
  with assms show ?thesis
    by (simp add: on_mode_def) (rule update_first_pred, simp_all add: current_valid_modes)
next
  case (12 state' m allocated)
  with assms show ?thesis
    by (simp add: on_mode_def) (rule update_first_pred, simp_all add: current_valid_modes)
qed

lemma current_valid_foldl_dispatch:
  "\<forall>info \<in> set (heads state). current_valid info \<Longrightarrow>
     \<forall>info \<in> set (heads (foldl dispatch state evs)). current_valid info"
proof (induction evs arbitrary: state)
  case Nil
  then show ?case by simp
next
  case (Cons ev evs)
  from Cons.prems have "\<forall>info \<in> set (heads (dispatch state ev)). current_valid info"
    by (rule current_valid_dispatch)
  then have "\<forall>info \<in> set (heads (foldl dispatch (dispatch state ev) evs)). current_valid info"
    by (rule Cons.IH)
  then show ?case by simp
qed

lemma current_mode_None_iff:
  "current_valid info \<Longrightarrow> current_mode info = None \<longleftrightarrow> current info = None"
  using node_at_Some_iff [of "modes info"]
  by (auto simp: current_valid_def current_mode_def split: option.splits)


section \<open>Properties of the configuration builder\<close>

text \<open>
  The requests \<open>apply_fullscreen\<close> sends are the transaction built from the target function
  \<open>select_fullscreen_mode\<close>; a transaction built from a target function holds, besides the
  creation, application and destruction of the configuration, exactly the enabling and
  the mode setting of the heads for which the target function yields a mode.
\<close>

lemma fullscreen_loop_eq:
  "fullscreen_loop hs = concat (map (head_actions select_fullscreen_mode) hs)"
  by (induction hs) (simp_all add: head_actions_def split: option.splits)



lemma head_actions_mentions:
  "r \<in> set (head_actions target head) \<longleftrightarrow>
     (\<exists>mode. target head = Some mode \<and>
        (r = Enable_head (head_info.obj head) \<or>
         r = Set_mode (head_info.obj head) (mode_info.obj mode)))"
  by (cases "target head") (auto simp: head_actions_def)

lemma transaction_for_mentions:
  "r \<in> set (transaction_for target state) \<longleftrightarrow>
     r = Create_configuration (serial state) \<or> r = Apply_configuration \<or>
     r = Destroy_configuration \<or>
     (\<exists>head \<in> set (heads state). \<exists>mode. target head = Some mode \<and>
        (r = Enable_head (head_info.obj head) \<or>
         r = Set_mode (head_info.obj head) (mode_info.obj mode)))"
  by (auto simp: transaction_for_def head_actions_mentions)

text \<open>
  The restore operation. As long as every named head has an entry among those loaded, the
  loop sends the actions of the target function \<open>restore_target\<close>; the lookup of a name
  that no loaded entry bears leaves the list \<^verbatim>\<open>load_state\<close> returned and is the fault.
\<close>

lemma find_entry_loop_find:
  "find_entry_loop xs at_head n =
     (case find (\<lambda>e. strcmp_eq (restore_entry.name e) n) xs of
        Some e \<Rightarrow> Inr (Some e)
      | None \<Rightarrow> if at_head then Inr None else Inl Dangling_link)"
  by (induction xs) simp_all

lemma restore_loop_found:
  assumes "\<forall>head \<in> set hs. \<forall>n. head_info.name head = Some n \<longrightarrow>
      find (\<lambda>e. strcmp_eq (restore_entry.name e) n) (nodes entries) \<noteq> None"
  shows "restore_loop entries hs sent =
     Inr (sent @ concat (map (head_actions (restore_target (nodes entries))) hs))"
  using assms
proof (induction hs arbitrary: sent)
  case Nil
  then show ?case by simp
next
  case (Cons h hs)
  then have ih: "restore_loop entries hs sent' =
      Inr (sent' @ concat (map (head_actions (restore_target (nodes entries))) hs))" for sent'
    by simp
  show ?case
  proof (cases "head_info.name h")
    case None
    then have "head_actions (restore_target (nodes entries)) h = []"
      by (simp add: head_actions_def restore_target_def)
    with None show ?thesis
      by (simp add: ih)
  next
    case (Some n)
    with Cons.prems obtain e
      where e: "find (\<lambda>e. strcmp_eq (restore_entry.name e) n) (nodes entries) = Some e"
      by auto
    let ?m = "find_mode h (restore_entry.width e) (restore_entry.height e) (restore_entry.refresh e)"
    have t: "restore_target (nodes entries) h = ?m"
      by (simp add: restore_target_def Some e)
    have f: "find_restore_entry entries n = Inr (Some e)"
      by (simp add: find_restore_entry_def find_entry_loop_find e)
    show ?thesis
    proof (cases ?m)
      case None
      with t have "head_actions (restore_target (nodes entries)) h = []"
        by (simp add: head_actions_def)
      with None Some f show ?thesis
        by (simp add: ih)
    next
      case (Some mode)
      with t have "head_actions (restore_target (nodes entries)) h =
          [Enable_head (head_info.obj h), Set_mode (head_info.obj h) (mode_info.obj mode)]"
        by (simp add: head_actions_def)
      with Some \<open>head_info.name h = Some n\<close> f show ?thesis
        by (simp add: ih)
    qed
  qed
qed

lemma restore_loop_unknown:
  assumes "head_info.name h = Some n"
    and "find (\<lambda>e. strcmp_eq (restore_entry.name e) n) (nodes entries) = None"
    and "\<not> closed entries"
  shows "restore_loop entries (h # hs) sent = Inl (Dangling_link, sent)"
  using assms by (simp add: find_restore_entry_def find_entry_loop_find)

text \<open>
  Claim C1 on an input where the program departs from it. The state file names \<^verbatim>\<open>eDP-1\<close>
  only, and the heads are \<^verbatim>\<open>eDP-1\<close> and \<^verbatim>\<open>HDMI-1\<close>. The claim has the restore operation build
  a transaction that enables \<^verbatim>\<open>eDP-1\<close>, sets its mode, and holds nothing for \<^verbatim>\<open>HDMI-1\<close>.
  In the program the lookup of \<^verbatim>\<open>HDMI-1\<close> walks past the one entry of the list that
  \<^verbatim>\<open>load_state\<close> returned by value, into the frame \<^verbatim>\<open>load_state\<close> has left: the operation
  ends in undefined behaviour after the requests for \<^verbatim>\<open>eDP-1\<close>, and the configuration is
  never applied.
\<close>

theorem apply_restore_unknown_head_undefined:
  "apply_restore
      \<lparr>manager = Some (1, 4), serial = 5, done_flag = True,
       heads = [\<lparr>head_info.obj = 7, name = Some ''eDP-1'', enabled = True, current = Some 0,
                 modes = [\<lparr>mode_info.obj = 8, width = 1920, height = 1080, refresh = 60, preferred = True\<rparr>,
                          \<lparr>mode_info.obj = 9, width = 1280, height = 720, refresh = 60, preferred = False\<rparr>]\<rparr>,
                \<lparr>head_info.obj = 11, name = Some ''HDMI-1'', enabled = False, current = None, modes = []\<rparr>]\<rparr>
      (Some ''/tmp/state'') (\<lambda>k. True)
      \<lparr>files = [''/tmp/state'' \<mapsto> ''eDP-1 1280 720 60\<newline>''], writable = (\<lambda>p. True),
       stderr = [], requests = []\<rparr>
   = Inl (Dangling_link,
       \<lparr>files = [''/tmp/state'' \<mapsto> ''eDP-1 1280 720 60\<newline>''], writable = (\<lambda>p. True),
        stderr = [], requests = [Create_configuration 5, Enable_head 7, Set_mode 7 9]\<rparr>)"
proof -
  have l: "load_state \<lparr>files = [''/tmp/state'' \<mapsto> ''eDP-1 1280 720 60\<newline>''],
        writable = (\<lambda>p. True), stderr = [], requests = []\<rparr> ''/tmp/state'' (\<lambda>k. True) =
      \<lparr>nodes = [\<lparr>restore_entry.name = ''eDP-1'', width = 1280, height = 720, refresh = 60\<rparr>],
       closed = False\<rparr>"
    by (simp add: load_state_def load_loop.simps fscanf_entry_def scan_s_def scan_d_def isspace_def
        isdigit_def dec_value_def strdup_def c_string_def store_d_def)
  show ?thesis
    by (simp add: apply_restore_def l wl_list_empty_def find_restore_entry_def find_mode_def
        strcmp_eq_def c_string_def send_def)
qed


text \<open>
  With a state file the restore operation never returns: when every lookup finds its
  entry the whole transaction is sent, and freeing the entries is the fault.
\<close>

lemma closed_load_state: "\<not> closed (load_state w path mem)"
  by (simp add: load_state_def)

lemma apply_restore_found:
  assumes "\<forall>head \<in> set (heads state). \<forall>n. head_info.name head = Some n \<longrightarrow>
      find (\<lambda>e. strcmp_eq (restore_entry.name e) n) (nodes (load_state w path mem)) \<noteq> None"
  shows "apply_restore state (Some path) mem w =
     Inl (Dangling_link,
          send (transaction_for (restore_target (nodes (load_state w path mem))) state) w)"
  using restore_loop_found [OF assms, of "[Create_configuration (serial state)]"]
  by (simp add: apply_restore_def Let_def wl_list_empty_def closed_load_state
      free_restore_entries_def transaction_for_def)

lemma apply_restore_state_file_fault:
  "\<exists>w'. apply_restore state (Some path) mem w = Inl (Dangling_link, w')"
proof (cases "restore_loop (load_state w path mem) (heads state) [Create_configuration (serial state)]")
  case (Inl a)
  obtain f sent where "a = (f, sent)" by (cases a)
  moreover have "f = Dangling_link" by (cases f)
  ultimately show ?thesis
    using Inl by (simp add: apply_restore_def Let_def wl_list_empty_def closed_load_state)
next
  case (Inr sent)
  then show ?thesis
    by (simp add: apply_restore_def Let_def wl_list_empty_def closed_load_state
        free_restore_entries_def)
qed

text \<open>
  Claim C5, as the code has it. When the state file cannot be opened for writing,
  \<open>save_state\<close> reports the failure on the diagnostic stream and returns \<open>-1\<close>, but
  \<open>apply_fullscreen\<close> discards that result: it goes on to create, fill and apply the
  configuration and returns \<open>0\<close>.
\<close>

theorem apply_fullscreen_ignores_save_failure:
  "\<not> writable w path \<Longrightarrow>
     save_state path state w = (- 1, report (Failed_to_open_state_file path) w) \<and>
     apply_fullscreen state (Some path) w =
       (0, send (transaction_for select_fullscreen_mode state)
             (report (Failed_to_open_state_file path) w))"
  by (simp add: save_state_def apply_fullscreen_def transaction_for_def fullscreen_loop_eq)

theorem apply_fullscreen_ignores_save_failure_witness:
  "\<not> writable \<lparr>files = (\<lambda>p. None), writable = (\<lambda>p. False), stderr = [], requests = []\<rparr> ''/ro/state'' \<and>
   save_state ''/ro/state'' \<lparr>manager = Some (1, 4), serial = 5, done_flag = True, heads = []\<rparr>
     \<lparr>files = (\<lambda>p. None), writable = (\<lambda>p. False), stderr = [], requests = []\<rparr>
   = (- 1, \<lparr>files = (\<lambda>p. None), writable = (\<lambda>p. False),
            stderr = [Failed_to_open_state_file ''/ro/state''], requests = []\<rparr>) \<and>
   apply_fullscreen \<lparr>manager = Some (1, 4), serial = 5, done_flag = True, heads = []\<rparr>
     (Some ''/ro/state'')
     \<lparr>files = (\<lambda>p. None), writable = (\<lambda>p. False), stderr = [], requests = []\<rparr>
   = (0, \<lparr>files = (\<lambda>p. None), writable = (\<lambda>p. False),
          stderr = [Failed_to_open_state_file ''/ro/state''],
          requests = [Create_configuration 5, Apply_configuration, Destroy_configuration]\<rparr>)"
  using apply_fullscreen_ignores_save_failure
    [of "\<lparr>files = (\<lambda>p. None), writable = (\<lambda>p. False), stderr = [], requests = []\<rparr>"
        "''/ro/state''" "\<lparr>manager = Some (1, 4), serial = 5, done_flag = True, heads = []\<rparr>"]
  by (simp add: report_def send_def transaction_for_def)

text \<open>
  Claim C5 as stated fails: with an unwritable state file the operation returns \<open>0\<close> and
  the configuration has been created and applied.
\<close>

theorem apply_fullscreen_save_failure_counterexample:
  "fst (apply_fullscreen \<lparr>manager = Some (1, 4), serial = 5, done_flag = True, heads = []\<rparr>
     (Some ''/ro/state'')
     \<lparr>files = (\<lambda>p. None), writable = (\<lambda>p. False), stderr = [], requests = []\<rparr>) = 0 \<and>
   requests (snd (apply_fullscreen \<lparr>manager = Some (1, 4), serial = 5, done_flag = True, heads = []\<rparr>
     (Some ''/ro/state'')
     \<lparr>files = (\<lambda>p. None), writable = (\<lambda>p. False), stderr = [], requests = []\<rparr>))
   = [Create_configuration 5, Apply_configuration, Destroy_configuration]"
  by (simp add: apply_fullscreen_def save_state_def report_def send_def)



section \<open>Properties of the program\<close>




lemma done_flag_first_roundtrip: "\<not> done_flag (first_roundtrip gs)"
proof -
  have "done_flag (foldl (\<lambda>s (gname, interface, version).
            registry_handle_global s gname interface version) s gs) = done_flag s" for s
    by (induction gs arbitrary: s) (simp_all add: registry_handle_global_def split: prod.splits)
  then show ?thesis
    by (simp add: first_roundtrip_def initial_state_def)
qed







section \<open>Properties of the state persistence codec\<close>

subsection \<open>Reading back what was printed\<close>

text \<open>
  \<^verbatim>\<open>%d\<close> of \<^verbatim>\<open>fscanf\<close> reads back the number \<^verbatim>\<open>%d\<close> of \<^verbatim>\<open>fprintf\<close> has printed, when the text
  ends there or goes on with something that is not a digit.
\<close>

lemma digit_char_props:
  assumes "d < 10"
  shows "isdigit (digit_char d)" and "(of_char (digit_char d) :: int) - 48 = int d"
    and "\<not> isspace (digit_char d)" and "digit_char d \<noteq> CHR ''-''" and "digit_char d \<noteq> CHR ''+''"
proof -
  have n: "(of_char (digit_char d) :: nat) = 48 + d"
    using assms by (simp add: digit_char_def)
  show "isdigit (digit_char d)" using assms by (simp add: isdigit_def n)
  show "\<not> isspace (digit_char d)" by (simp add: isspace_def n)
  have "(of_char (digit_char d) :: int) = int (of_char (digit_char d))"
    by (simp add: of_nat_of_char)
  then show "(of_char (digit_char d) :: int) - 48 = int d" by (simp add: n)
  have "(of_char (digit_char d) :: nat) \<noteq> of_char (CHR ''-'')" unfolding n by simp
  then show "digit_char d \<noteq> CHR ''-''" by metis
  have "(of_char (digit_char d) :: nat) \<noteq> of_char (CHR ''+'')" unfolding n by simp
  then show "digit_char d \<noteq> CHR ''+''" by metis
qed

lemma digits_of_nonempty: "digits_of n \<noteq> []"
  by (subst digits_of.simps) simp

lemma digits_of_isdigit: "c \<in> set (digits_of n) \<Longrightarrow> isdigit c"
proof (induction n arbitrary: c rule: digits_of.induct)
  case (1 n)
  show ?case
  proof (cases "n < 10")
    case True
    with "1.prems" show ?thesis
      by (subst (asm) digits_of.simps) (simp add: digit_char_props)
  next
    case False
    with "1.prems" have "c \<in> set (digits_of (n div 10)) \<or> c = digit_char (n mod 10)"
      by (subst (asm) digits_of.simps) auto
    with False "1.IH" show ?thesis
      by (auto simp: digit_char_props)
  qed
qed

lemma dec_value_snoc: "dec_value (ds @ [c]) = dec_value ds * 10 + (of_char c - 48)"
  by (simp add: dec_value_def)

lemma dec_value_digits_of: "dec_value (digits_of n) = int n"
proof (induction n rule: digits_of.induct)
  case (1 n)
  show ?case
  proof (cases "n < 10")
    case True
    then show ?thesis
      by (subst digits_of.simps) (simp add: dec_value_def digit_char_props)
  next
    case False
    then have "dec_value (digits_of n) = dec_value (digits_of (n div 10)) * 10 + int (n mod 10)"
      by (subst digits_of.simps) (simp add: dec_value_snoc digit_char_props)
    with False "1.IH" show ?thesis
      by (simp add: zdiv_int zmod_int)
  qed
qed

lemma hd_digits_of: "isdigit (hd (digits_of n))"
  using digits_of_nonempty [of n] digits_of_isdigit [of "hd (digits_of n)" n] by simp

lemma isdigit_not_isspace: "isdigit c \<Longrightarrow> \<not> isspace c"
  by (auto simp: isdigit_def isspace_def)

lemma isdigit_not_sign: "isdigit c \<Longrightarrow> c \<noteq> CHR ''-'' \<and> c \<noteq> CHR ''+''"
  by (auto simp: isdigit_def)

lemma takeWhile_digits:
  "rest = [] \<or> \<not> isdigit (hd rest) \<Longrightarrow> takeWhile isdigit (digits_of n @ rest) = digits_of n"
  by (cases rest) (simp_all add: takeWhile_append2 digits_of_isdigit)

lemma scan_d_digits:
  assumes "rest = [] \<or> \<not> isdigit (hd rest)"
  shows "scan_d (digits_of n @ rest) = Some (int n, rest)"
proof -
  obtain d ds where ds: "digits_of n = d # ds"
    using digits_of_nonempty [of n] by (cases "digits_of n") simp_all
  have d: "isdigit d" using hd_digits_of [of n] by (simp add: ds)
  have t: "takeWhile isdigit (d # ds @ rest) = d # ds"
    using takeWhile_digits [OF assms, of n] by (simp add: ds)
  have v: "dec_value (d # ds) = int n"
    using dec_value_digits_of [of n] by (simp add: ds)
  show ?thesis
    using d isdigit_not_isspace [OF d] isdigit_not_sign [OF d] t v
    by (simp add: scan_d_def ds Let_def)
qed

lemma scan_d_print_d:
  assumes "rest = [] \<or> \<not> isdigit (hd rest)"
  shows "scan_d (print_d i @ rest) = Some (i, rest)"
proof (cases "i < 0")
  case False
  then show ?thesis
    using scan_d_digits [OF assms, of "nat i"] by (simp add: print_d_def)
next
  case True
  let ?n = "nat (- i)"
  obtain d ds where ds: "digits_of ?n = d # ds"
    using digits_of_nonempty [of ?n] by (cases "digits_of ?n") simp_all
  have t: "takeWhile isdigit (d # ds @ rest) = d # ds"
    using takeWhile_digits [OF assms, of ?n] by (simp add: ds)
  have v: "dec_value (d # ds) = int ?n"
    using dec_value_digits_of [of ?n] by (simp add: ds)
  have "\<not> isspace (CHR ''-'')" by (simp add: isspace_def)
  then show ?thesis
    using True t v by (simp add: scan_d_def print_d_def ds Let_def)
qed

text \<open>
  One call of \<^verbatim>\<open>fscanf\<close> on a line written by \<^verbatim>\<open>save_state\<close> assigns the four fields of the
  line and stops in front of the newline; white space in front of a record is skipped.
\<close>

lemma scan_d_skip: "isspace c \<Longrightarrow> scan_d (c # inp) = scan_d inp"
  by (simp add: scan_d_def)

lemma scan_s_skip: "isspace c \<Longrightarrow> scan_s k (c # inp) = scan_s k inp"
  by (simp add: scan_s_def)

lemma fscanf_entry_skip: "isspace c \<Longrightarrow> fscanf_entry (c # inp) = fscanf_entry inp"
  by (simp add: fscanf_entry_def scan_s_skip)

lemma scan_s_name:
  assumes "storable_name n" and "isspace c"
  shows "scan_s 255 (n @ c # rest) = Some (n, c # rest)"
proof -
  from assms(1) have ne: "n \<noteq> []" and ns: "\<forall>a \<in> set n. \<not> isspace a" and len: "length n \<le> 255"
    by (simp_all add: storable_name_def)
  have "\<not> isspace (hd n)" using ne ns by simp
  then have d: "dropWhile isspace (n @ c # rest) = n @ c # rest"
    using ne by (cases n) simp_all
  have t: "takeWhile (\<lambda>a. \<not> isspace a) (n @ c # rest) = n"
    using ns assms(2) by (simp add: takeWhile_append2)
  show ?thesis
    using len ne by (simp add: scan_s_def Let_def d t)
qed

lemma c_string_storable: "storable_name n \<Longrightarrow> c_string n = n"
  by (simp add: storable_name_def c_string_def takeWhile_eq_all_conv)

lemma store_d_sint: "store_d (sint (w :: int32_t)) = w"
proof -
  have "- (2 ^ 31) \<le> sint w" and "sint w < 2 ^ 31"
    using sint_ge [of w] sint_lt [of w] by simp_all
  then have "max (- (2 ^ 63)) (min (2 ^ 63 - 1) (sint w)) = sint w"
    by simp
  then show ?thesis
    by (simp add: store_d_def)
qed

lemma fscanf_entry_state_line:
  assumes "storable_name n"
  shows "fscanf_entry (state_line n w h r @ rest) = Matched n w h r (CHR 0x0A # rest)"
proof -
  have sp: "isspace (CHR '' '')" and nl: "\<not> isdigit (CHR 0x0A)" and nsp: "\<not> isdigit (CHR '' '')"
    by (simp_all add: isspace_def isdigit_def)
  let ?r3 = "CHR '' '' # print_d (sint r) @ CHR 0x0A # rest"
  let ?r2 = "CHR '' '' # print_d (sint h) @ ?r3"
  let ?r1 = "CHR '' '' # print_d (sint w) @ ?r2"
  have line: "state_line n w h r @ rest = n @ ?r1"
    using assms by (simp add: state_line_def c_string_storable)
  have s0: "scan_s 255 (n @ ?r1) = Some (n, ?r1)"
    using assms sp by (rule scan_s_name)
  have s1: "scan_d ?r1 = Some (sint w, ?r2)"
    using scan_d_print_d [of ?r2 "sint w"] nsp by (simp add: scan_d_skip [OF sp])
  have s2: "scan_d ?r2 = Some (sint h, ?r3)"
    using scan_d_print_d [of ?r3 "sint h"] nsp by (simp add: scan_d_skip [OF sp])
  have s3: "scan_d ?r3 = Some (sint r, CHR 0x0A # rest)"
    using scan_d_print_d [of "CHR 0x0A # rest" "sint r"] nl by (simp add: scan_d_skip [OF sp])
  show ?thesis
    unfolding line fscanf_entry_def by (simp add: s0 s1 s2 s3 store_d_sint)
qed


lemma fscanf_entry_skip_all:
  "\<forall>c \<in> set ws. isspace c \<Longrightarrow> fscanf_entry (ws @ inp) = fscanf_entry inp"
  by (induction ws) (simp_all add: fscanf_entry_skip)

lemma fscanf_entry_entry_line:
  assumes "storable_name (restore_entry.name e)"
  shows "fscanf_entry (entry_line e @ rest) =
     Matched (restore_entry.name e) (restore_entry.width e) (restore_entry.height e)
       (restore_entry.refresh e) (CHR 0x0A # rest)"
  unfolding entry_line_def using assms by (rule fscanf_entry_state_line)

subsection \<open>The loop of \<open>load_state\<close>\<close>

text \<open>
  On a sequence of lines for entries with storable names, followed by text on which
  \<^verbatim>\<open>fscanf\<close> does not assign four fields, the loop yields the entries, the last one of the
  file in front, provided every allocation succeeds.
\<close>

lemma restore_entry_eta:
  "\<lparr>restore_entry.name = restore_entry.name e, width = restore_entry.width e,
    height = restore_entry.height e, refresh = restore_entry.refresh e\<rparr> = e"
  by simp

lemma load_loop_lines:
  assumes mem: "\<forall>k. mem k" and tail: "fscanf_entry tail = Stopped n0"
  shows "\<lbrakk>\<forall>e \<in> set es. storable_name (restore_entry.name e); \<forall>c \<in> set ws. isspace c\<rbrakk>
     \<Longrightarrow> load_loop mem k (ws @ concat (map entry_line es) @ tail) acc = rev es @ acc"
proof (induction es arbitrary: ws k acc)
  case Nil
  then have "fscanf_entry (ws @ tail) = Stopped n0"
    by (simp add: fscanf_entry_skip_all tail)
  then show ?case
    by (subst load_loop.simps) simp
next
  case (Cons e es)
  let ?rest = "concat (map entry_line es) @ tail"
  from Cons.prems have ok: "storable_name (restore_entry.name e)"
    by simp
  have "fscanf_entry (ws @ entry_line e @ ?rest) = fscanf_entry (entry_line e @ ?rest)"
    using Cons.prems(2) by (rule fscanf_entry_skip_all)
  also have "\<dots> = Matched (restore_entry.name e) (restore_entry.width e)
      (restore_entry.height e) (restore_entry.refresh e) (CHR 0x0A # ?rest)"
    using ok by (rule fscanf_entry_entry_line)
  finally have m: "fscanf_entry (ws @ entry_line e @ ?rest) =
      Matched (restore_entry.name e) (restore_entry.width e)
        (restore_entry.height e) (restore_entry.refresh e) (CHR 0x0A # ?rest)" .
  have nl: "\<forall>c \<in> set [CHR 0x0A]. isspace c"
    by (simp add: isspace_def)
  have "load_loop mem k (ws @ concat (map entry_line (e # es)) @ tail) acc =
      load_loop mem (Suc k) ([CHR 0x0A] @ ?rest) (e # acc)"
    by (subst load_loop.simps) (simp add: m mem strdup_def c_string_storable [OF ok] restore_entry_eta)
  also have "\<dots> = rev es @ e # acc"
    using Cons.prems(1) nl by (intro Cons.IH) simp_all
  finally show ?case by simp
qed

lemma fscanf_entry_Nil: "fscanf_entry [] = Stopped (- 1)"
  by (simp add: fscanf_entry_def scan_s_def)

lemma save_loop_lines: "save_loop hs = concat (map entry_line (List.map_filter saved_entry hs))"
  by (induction hs)
     (simp_all add: List.map_filter_simps saved_entry_def entry_line_def split: option.splits)

lemma saved_entry_name:
  "saved_entry head = Some e \<Longrightarrow> head_info.name head = Some (restore_entry.name e)"
  by (auto simp: saved_entry_def split: option.splits)

lemma map_filter_saved_names:
  "e \<in> set (List.map_filter saved_entry hs) \<Longrightarrow>
     \<exists>head \<in> set hs. head_info.name head = Some (restore_entry.name e)"
proof (induction hs)
  case Nil
  then show ?case by (simp add: List.map_filter_simps)
next
  case (Cons h hs)
  show ?case
  proof (cases "saved_entry h")
    case None
    with Cons show ?thesis by (simp add: List.map_filter_simps)
  next
    case (Some e')
    with Cons show ?thesis
      by (auto simp: List.map_filter_simps dest: saved_entry_name)
  qed
qed

lemma nodes_load_state:
  "files w path = Some content \<Longrightarrow> nodes (load_state w path mem) = load_loop mem 0 content []"
  by (simp add: load_state_def)

text \<open>
  Claim C8, as the code has it. For every head set whose named heads have non-empty,
  white-space-free names of at most 255 characters, when the state file can be written and
  every allocation succeeds, \<open>save_state\<close> succeeds and the list \<open>load_state\<close> returns for
  the file written holds exactly one entry (name, width, height, refresh) for each head
  that has both a name and a current mode, and no other entry, in the reverse order of the
  heads. (What lies behind the oldest entry of that list is not part of the statement.)
\<close>

theorem save_then_load_roundtrip:
  assumes "\<forall>head \<in> set (heads state). \<forall>n. head_info.name head = Some n \<longrightarrow> storable_name n"
    and "writable w path"
    and "\<forall>k. mem k"
  shows "fst (save_state path state w) = 0 \<and>
    nodes (load_state (snd (save_state path state w)) path mem) =
      rev (List.map_filter saved_entry (heads state))"
proof -
  let ?es = "List.map_filter saved_entry (heads state)"
  have names: "\<forall>e \<in> set ?es. storable_name (restore_entry.name e)"
    using assms(1) by (auto dest!: map_filter_saved_names)
  have "load_loop mem 0 ([] @ concat (map entry_line ?es) @ []) [] = rev ?es @ []"
    using assms(3) fscanf_entry_Nil names by (rule load_loop_lines) simp
  then show ?thesis
    using assms(2) by (simp add: save_state_def load_state_def save_loop_lines)
qed

subsection \<open>Records that stop the loop\<close>

text \<open>
  On a record cut short or spoiled before its fourth field is complete, \<^verbatim>\<open>fscanf\<close> assigns
  the name and the numbers that are there and returns their count.
\<close>

lemma scan_d_Nil: "scan_d [] = None"
  by (simp add: scan_d_def)







lemma find_restore_entry_filter:
  "find_entry_loop xs at_head n =
     (case filter (\<lambda>e. strcmp_eq (restore_entry.name e) n) xs of
        [] \<Rightarrow> if at_head then Inr None else Inl Dangling_link
      | y # ys \<Rightarrow> Inr (Some y))"
  by (induction xs) simp_all

lemma strcmp_eq_storable:
  "storable_name a \<Longrightarrow> storable_name b \<Longrightarrow> strcmp_eq a b \<longleftrightarrow> a = b"
  by (simp add: strcmp_eq_def c_string_storable)

text \<open>
  Claim C4, as the code has it. For every state file of well-formed records in which a
  name occurs several times, looking that name up in the loaded entries returns the entry
  that comes last in the file: \<open>load_state\<close> inserts every entry in front of the list and
  \<open>find_restore_entry\<close> returns the first match from the front.
\<close>

theorem find_restore_entry_last_in_file:
  assumes "\<forall>e \<in> set es. storable_name (restore_entry.name e)"
    and "files w path = Some (concat (map entry_line es))"
    and "\<forall>k. mem k"
    and "1 < length (filter (\<lambda>e. restore_entry.name e = n) es)"
  shows "find_restore_entry (load_state w path mem) n =
    Inr (Some (last (filter (\<lambda>e. restore_entry.name e = n) es)))"
proof -
  let ?same = "filter (\<lambda>e. restore_entry.name e = n) es"
  have "load_loop mem 0 ([] @ concat (map entry_line es) @ []) [] = rev es @ []"
    using assms(3) fscanf_entry_Nil assms(1) by (rule load_loop_lines) simp
  then have l: "nodes (load_state w path mem) = rev es"
    using assms(2) by (simp add: nodes_load_state)
  from assms(4) have ne: "?same \<noteq> []"
    by auto
  then obtain e where "e \<in> set es" and "restore_entry.name e = n"
    by (metis (mono_tags, lifting) filter_False)
  with assms(1) have n: "storable_name n"
    by auto
  have "filter (\<lambda>e. strcmp_eq (restore_entry.name e) n) es = ?same"
    using assms(1) n by (intro filter_cong) (auto simp: strcmp_eq_storable)
  then have "filter (\<lambda>e. strcmp_eq (restore_entry.name e) n) (rev es) = rev ?same"
    by (simp only: rev_filter [symmetric])
  moreover have "rev ?same = last ?same # rev (butlast ?same)"
    using ne by (metis append_butlast_last_id rev.simps(2) rev_append rev_rev_ident append_Cons append_Nil)
  ultimately show ?thesis
    by (simp add: find_restore_entry_def l find_restore_entry_filter)
qed

subsection \<open>Examples\<close>

lemma digit_char_table: "n < 10 \<Longrightarrow> digit_char n = ''0123456789'' ! n"
proof -
  assume "n < 10"
  then have "n \<in> {0, 1, 2, 3, 4, 5, 6, 7, 8, 9}" by auto
  then show ?thesis
    by (elim insertE emptyE; hypsubst; code_simp)
qed

lemmas printing = entry_line_def state_line_def c_string_def print_d_def digits_of.simps
  digit_char_table

lemmas scanning = fscanf_entry_def scan_s_def scan_d_def isspace_def isdigit_def dec_value_def
  strdup_def c_string_def store_d_def

text \<open>
  The example of the specification: the head \<^verbatim>\<open>eDP-1\<close> with current mode 1920\<times>1080 at 60
  comes back as the single entry (\<^verbatim>\<open>eDP-1\<close>, 1920, 1080, 60); the head without current mode
  is not saved.
\<close>

theorem save_then_load_roundtrip_witness:
  "nodes (load_state
     (snd (save_state ''/tmp/state''
        \<lparr>manager = Some (1, 4), serial = 5, done_flag = True,
         heads = [\<lparr>head_info.obj = 7, name = Some ''eDP-1'', enabled = True, current = Some 0,
                   modes = [\<lparr>mode_info.obj = 8, width = 1920, height = 1080, refresh = 60,
                             preferred = True\<rparr>]\<rparr>,
                  \<lparr>head_info.obj = 11, name = Some ''HDMI-1'', enabled = False, current = None,
                   modes = []\<rparr>]\<rparr>
        \<lparr>files = (\<lambda>p. None), writable = (\<lambda>p. True), stderr = [], requests = []\<rparr>))
     ''/tmp/state'' (\<lambda>k. True))
   = [\<lparr>restore_entry.name = ''eDP-1'', width = 1920, height = 1080, refresh = 60\<rparr>]"
  using save_then_load_roundtrip
    [of "\<lparr>manager = Some (1, 4), serial = 5, done_flag = True,
         heads = [\<lparr>head_info.obj = 7, name = Some ''eDP-1'', enabled = True, current = Some 0,
                   modes = [\<lparr>mode_info.obj = 8, width = 1920, height = 1080, refresh = 60,
                             preferred = True\<rparr>]\<rparr>,
                  \<lparr>head_info.obj = 11, name = Some ''HDMI-1'', enabled = False, current = None,
                   modes = []\<rparr>]\<rparr>"
        "\<lparr>files = (\<lambda>p. None), writable = (\<lambda>p. True), stderr = [], requests = []\<rparr>"
        "''/tmp/state''" "\<lambda>k. True"]
  by (simp add: storable_name_def isspace_def List.map_filter_simps saved_entry_def
      current_mode_def)

text \<open>
  Claim C8 as stated fails on a head whose name is the empty string, which is free of
  white space and shorter than 255 characters: the line written starts with a space, the
  three numbers are read as a name and two numbers, and no entry comes back.
\<close>

theorem save_then_load_empty_name_counterexample:
  "nodes (load_state
     (snd (save_state ''/tmp/state''
        \<lparr>manager = Some (1, 4), serial = 5, done_flag = True,
         heads = [\<lparr>head_info.obj = 7, name = Some [], enabled = True, current = Some 0,
                   modes = [\<lparr>mode_info.obj = 8, width = 1920, height = 1080, refresh = 60,
                             preferred = True\<rparr>]\<rparr>]\<rparr>
        \<lparr>files = (\<lambda>p. None), writable = (\<lambda>p. True), stderr = [], requests = []\<rparr>))
     ''/tmp/state'' (\<lambda>k. True))
   = []"
  by (simp add: save_state_def load_state_def current_mode_def load_loop.simps printing scanning)



theorem find_restore_entry_last_in_file_witness:
  "find_restore_entry
     (load_state
        \<lparr>files = [''/tmp/state'' \<mapsto>
           ''eDP-1 1920 1080 60\<newline>HDMI-1 1280 720 60\<newline>eDP-1 3840 2160 30\<newline>''],
         writable = (\<lambda>p. True), stderr = [], requests = []\<rparr>
        ''/tmp/state'' (\<lambda>k. True))
     ''eDP-1''
   = Inr (Some \<lparr>restore_entry.name = ''eDP-1'', width = 3840, height = 2160, refresh = 30\<rparr>)"
  using find_restore_entry_last_in_file
    [of "[\<lparr>restore_entry.name = ''eDP-1'', width = 1920, height = 1080, refresh = 60\<rparr>,
          \<lparr>restore_entry.name = ''HDMI-1'', width = 1280, height = 720, refresh = 60\<rparr>,
          \<lparr>restore_entry.name = ''eDP-1'', width = 3840, height = 2160, refresh = 30\<rparr>]"
        "\<lparr>files = [''/tmp/state'' \<mapsto>
           ''eDP-1 1920 1080 60\<newline>HDMI-1 1280 720 60\<newline>eDP-1 3840 2160 30\<newline>''],
         writable = (\<lambda>p. True), stderr = [], requests = []\<rparr>"
        "''/tmp/state''" "\<lambda>k. True" "''eDP-1''"]
  by (simp add: storable_name_def isspace_def printing)

text \<open>
  Claim C4 as stated fails: of two entries named \<^verbatim>\<open>A\<close> the lookup returns the second of the
  file, not the first.
\<close>

theorem find_restore_entry_first_in_file_counterexample:
  "find_restore_entry
     (load_state
        \<lparr>files = [''/tmp/state'' \<mapsto> ''A 1 1 1\<newline>A 2 2 2\<newline>''],
         writable = (\<lambda>p. True), stderr = [], requests = []\<rparr>
        ''/tmp/state'' (\<lambda>k. True))
     ''A''
   = Inr (Some \<lparr>restore_entry.name = ''A'', width = 2, height = 2, refresh = 2\<rparr>)"
  by (simp add: find_restore_entry_def load_state_def load_loop.simps scanning strcmp_eq_def)

end
